theory Spec2Isabelle
  imports Main "HOL-Library.Sublist" "HOL-Library.Signed_Division"
begin

section \<open>Strings: the Go library functions the server calls\<close>

text \<open>
  A Go \<open>string\<close> is a sequence of bytes, so it is a \<^typ>\<open>string\<close> here (a list of
  8-bit characters). The server (\<open>src/unnamed/part_002\<close>) uses four functions of the
  standard library on the probe's output and on the request path; each is written out
  below on bytes.
\<close>

text \<open>\<open>strings.HasPrefix(s, prefix)\<close> and \<open>strings.Contains(s, substr)\<close>.\<close>

fun HasPrefix :: "string \<Rightarrow> string \<Rightarrow> bool" where
  "HasPrefix s [] = True"
| "HasPrefix [] (p # ps) = False"
| "HasPrefix (c # cs) (p # ps) = (c = p \<and> HasPrefix cs ps)"

fun Contains :: "string \<Rightarrow> string \<Rightarrow> bool" where
  "Contains [] substr = (substr = [])"
| "Contains (c # cs) substr = (HasPrefix (c # cs) substr \<or> Contains cs substr)"

text \<open>\<open>strings.TrimPrefix(s, prefix)\<close>: \<open>s\<close> without the prefix when it has it, else \<open>s\<close>.\<close>

definition TrimPrefix :: "string \<Rightarrow> string \<Rightarrow> string" where
  "TrimPrefix s p = (if HasPrefix s p then drop (length p) s else s)"

text \<open>
  \<open>strings.Split(s, "\n")\<close>: the pieces between the newline bytes, always at least one
  piece (\<open>Split("", "\n")\<close> is one empty string).
\<close>

fun Split_newline :: "string \<Rightarrow> string list" where
  "Split_newline [] = [[]]"
| "Split_newline (c # cs) =
     (if c = CHR 0x0A then [] # Split_newline cs
      else (case Split_newline cs of
              [] \<Rightarrow> [[c]]
            | l # ls \<Rightarrow> (c # l) # ls))"

text \<open>
  \<open>strings.TrimSpace(s)\<close> removes the leading and then the trailing white space, as
  Unicode defines it (\<open>unicode.IsSpace\<close>): the code points U+0009 to U+000D, U+0020,
  U+0085, U+00A0, U+1680, U+2000 to U+200A, U+2028, U+2029, U+202F, U+205F and U+3000.
  The string is UTF-8, so a leading (trailing) rune is one of them exactly when the bytes
  start (end) with its encoding; \<open>space_encodings\<close> lists the encodings.
\<close>

definition space_encodings :: "string list" where
  "space_encodings =
     [[CHR 0x09], [CHR 0x0A], [CHR 0x0B], [CHR 0x0C], [CHR 0x0D], [CHR 0x20],
      [CHR 0xC2, CHR 0x85], [CHR 0xC2, CHR 0xA0],
      [CHR 0xE1, CHR 0x9A, CHR 0x80],
      [CHR 0xE2, CHR 0x80, CHR 0x80], [CHR 0xE2, CHR 0x80, CHR 0x81],
      [CHR 0xE2, CHR 0x80, CHR 0x82], [CHR 0xE2, CHR 0x80, CHR 0x83],
      [CHR 0xE2, CHR 0x80, CHR 0x84], [CHR 0xE2, CHR 0x80, CHR 0x85],
      [CHR 0xE2, CHR 0x80, CHR 0x86], [CHR 0xE2, CHR 0x80, CHR 0x87],
      [CHR 0xE2, CHR 0x80, CHR 0x88], [CHR 0xE2, CHR 0x80, CHR 0x89],
      [CHR 0xE2, CHR 0x80, CHR 0x8A],
      [CHR 0xE2, CHR 0x80, CHR 0xA8], [CHR 0xE2, CHR 0x80, CHR 0xA9],
      [CHR 0xE2, CHR 0x80, CHR 0xAF],
      [CHR 0xE2, CHR 0x81, CHR 0x9F],
      [CHR 0xE3, CHR 0x80, CHR 0x80]]"

text \<open>The number of bytes of the white-space rune \<open>s\<close> starts with, 0 when it starts with none.\<close>

definition space_width :: "string list \<Rightarrow> string \<Rightarrow> nat" where
  "space_width encs s = (case find (\<lambda>e. HasPrefix s e) encs of None \<Rightarrow> 0 | Some e \<Rightarrow> length e)"

fun trim_encodings :: "string list \<Rightarrow> string \<Rightarrow> string" where
  "trim_encodings encs [] = []"
| "trim_encodings encs (c # cs) =
     (if space_width encs (c # cs) = 0 then c # cs
      else trim_encodings encs (drop (space_width encs (c # cs) - 1) cs))"

definition TrimLeftSpace :: "string \<Rightarrow> string" where
  "TrimLeftSpace s = trim_encodings space_encodings s"

definition TrimRightSpace :: "string \<Rightarrow> string" where
  "TrimRightSpace s = rev (trim_encodings (map rev space_encodings) (rev s))"

definition TrimSpace :: "string \<Rightarrow> string" where
  "TrimSpace s = TrimRightSpace (TrimLeftSpace s)"


section \<open>Check results and their classification\<close>

text \<open>
  \<open>time.Time\<close> is kept abstract: an instant is a number, and 0 is the zero value.
\<close>

type_synonym time = int

record CheckResult =
  IsUp :: bool
  Message :: string
  Error :: string
  HTTPStatus :: int
  RsyncExitCode :: int
  RsyncOutput :: string
  Timestamp :: time

text \<open>The zero value of the struct, which \<open>CheckResult{Timestamp: time.Now()}\<close> starts from.\<close>

definition zeroCheckResult :: CheckResult where
  "zeroCheckResult =
     \<lparr>IsUp = False, Message = [], Error = [], HTTPStatus = 0, RsyncExitCode = 0,
      RsyncOutput = [], Timestamp = 0\<rparr>"

abbreviation StatusOK :: int where "StatusOK \<equiv> 200"
abbreviation StatusBadRequest :: int where "StatusBadRequest \<equiv> 400"
abbreviation StatusNotFound :: int where "StatusNotFound \<equiv> 404"
abbreviation StatusInternalServerError :: int where "StatusInternalServerError \<equiv> 500"

text \<open>
  The error \<open>cmd.CombinedOutput()\<close> returns, when it is not nil. \<open>ExitError ws\<close> is an
  \<open>*exec.ExitError\<close>: the command ran and did not succeed; \<open>ws\<close> is \<open>Some status\<close> when
  \<open>exiterr.Sys()\<close> is a \<open>syscall.WaitStatus\<close>, with \<open>status\<close> the value of
  \<open>status.ExitStatus()\<close> (the exit code, or -1 for a process ended by a signal), and \<open>None\<close>
  when the type assertion fails. \<open>OtherError\<close> is every other error (the command could not be
  started, the output could not be read).
\<close>

datatype exec_error = ExitError "int option" | OtherError

text \<open>The loop of \<open>performCheck\<close> over the lines of the output (lines 156 to 162).\<close>

fun firstLine_loop :: "string list \<Rightarrow> string" where
  "firstLine_loop [] = []"
| "firstLine_loop (l # ls) =
     (if TrimSpace l \<noteq> [] then TrimSpace l else firstLine_loop ls)"

text \<open>
  Lines 132 to 174 of \<open>performCheck\<close>: the result built from the current time, the error and
  the combined output of the \<open>rsync\<close> command.
\<close>

definition performCheck_newResult :: "time \<Rightarrow> exec_error option \<Rightarrow> string \<Rightarrow> CheckResult" where
  "performCheck_newResult now err outputStr =
     (let newResult = zeroCheckResult\<lparr>Timestamp := now\<rparr> in
      case err of
        None \<Rightarrow>
          newResult\<lparr>IsUp := True, Message := ''Operational'', Error := [],
            HTTPStatus := StatusOK, RsyncExitCode := 0\<rparr>
      | Some e \<Rightarrow>
          (let newResult = newResult\<lparr>IsUp := False, Message := [],
                 RsyncOutput := TrimSpace outputStr\<rparr>;
               newResult = (case e of
                   ExitError (Some status) \<Rightarrow> newResult\<lparr>RsyncExitCode := status\<rparr>
                 | ExitError None \<Rightarrow> newResult
                 | OtherError \<Rightarrow> newResult);
               firstLine = firstLine_loop (Split_newline outputStr);
               firstLine = (if firstLine = [] then ''Erro desconhecido do rsync'' else firstLine)
           in if Contains outputStr ''@ERROR: Unknown module''
              then newResult\<lparr>HTTPStatus := StatusNotFound, Error := firstLine\<rparr>
              else newResult\<lparr>HTTPStatus := StatusInternalServerError, Error := firstLine\<rparr>))"

section \<open>Validation of module names\<close>

text \<open>
  \<open>isValidModulePath\<close> matches the module against the regular expression
  \<open>^[a-zA-Z0-9_.-]+$\<close>. A character class is a list of ranges of byte values; in Go's syntax
  \<open>$\<close> is the end of the text only, and a byte above 127 decodes to a rune outside every
  range of the class, so the match is decided byte by byte.
\<close>

type_synonym char_class = "(char \<times> char) list"

definition in_class :: "char_class \<Rightarrow> char \<Rightarrow> bool" where
  "in_class cls c =
     list_ex (\<lambda>(lo, hi). (of_char lo :: nat) \<le> of_char c \<and> (of_char c :: nat) \<le> of_char hi) cls"

text \<open>\<open>^[cls]+$\<close>: one or more characters of the class, and nothing else.\<close>

fun match_class_plus :: "char_class \<Rightarrow> string \<Rightarrow> bool" where
  "match_class_plus cls [] = False"
| "match_class_plus cls (c # cs) = (in_class cls c \<and> (cs = [] \<or> match_class_plus cls cs))"

definition module_class :: char_class where
  "module_class =
     [(CHR ''a'', CHR ''z''), (CHR ''A'', CHR ''Z''), (CHR ''0'', CHR ''9''),
      (CHR ''_'', CHR ''_''), (CHR ''.'', CHR ''.''), (CHR ''-'', CHR ''-'')]"

definition isValidModulePath :: "string \<Rightarrow> bool" where
  "isValidModulePath module = match_class_plus module_class module"


section \<open>Slices and their backing arrays\<close>

text \<open>
  \<open>sc.results\<close> is a Go slice: a view (array, first index, length, capacity) of a backing
  array that \<open>append\<close>, \<open>copy\<close> and slicing share. The heap is the list of the backing arrays
  allocated so far, an array's address being its index; allocation adds an array at the
  end. \<open>make\<close> panics on a request above the limit of the allocator; below that limit memory
  is not bounded here.
\<close>

type_synonym addr = nat
type_synonym heap = "CheckResult list list"

record slice =
  array :: addr
  offset :: nat
  len :: nat
  cap :: nat

definition heap_array :: "heap \<Rightarrow> addr \<Rightarrow> CheckResult list" where
  "heap_array h a = (if a < length h then h ! a else [])"

text \<open>The elements a slice shows: \<open>s[0], ..., s[len(s)-1]\<close>.\<close>

definition slice_elems :: "heap \<Rightarrow> slice \<Rightarrow> CheckResult list" where
  "slice_elems h s = take (len s) (drop (offset s) (heap_array h (array s)))"

text \<open>The panics of the runtime and of \<open>net/http\<close> that the server can meet.\<close>

datatype panic =
    DivideByZero
  | MakeSliceLenOutOfRange
  | MakeSliceCapOutOfRange
  | InvalidWriteHeaderCode int

text \<open>
  The size of a \<open>CheckResult\<close> and the largest allocation of the runtime, \<open>maxAlloc\<close>, in
  bytes, on the 64-bit Linux platforms the server is built for: a \<open>bool\<close> padded to 8
  bytes, three strings of 16, two \<open>int\<close> of 8 and a \<open>time.Time\<close> of 24; 48 bits of heap
  addresses.
\<close>

definition sizeofCheckResult :: int where
  "sizeofCheckResult = 96"

definition maxAlloc :: int where
  "maxAlloc = 2 ^ 48"

text \<open>
  \<open>make([]CheckResult, n, c)\<close>: a new array of \<open>c\<close> zero values and a slice of its first
  \<open>n\<close>. The runtime (\<open>makeslice\<close>) panics when the array would be larger than \<open>maxAlloc\<close>
  or when \<open>n\<close> is above \<open>c\<close>, naming the length when the length alone is too large and
  the capacity otherwise. The lengths and capacities of the server are not negative.
\<close>

definition makeslice :: "heap \<Rightarrow> nat \<Rightarrow> nat \<Rightarrow> panic + heap \<times> slice" where
  "makeslice h n c =
     (if sizeofCheckResult * int c > maxAlloc \<or> n > c
      then (if sizeofCheckResult * int n > maxAlloc then Inl MakeSliceLenOutOfRange
            else Inl MakeSliceCapOutOfRange)
      else Inr (h @ [replicate c zeroCheckResult],
                \<lparr>array = length h, offset = 0, len = n, cap = c\<rparr>))"

text \<open>
  \<open>append(s, v)\<close>: with room left in the backing array the value is written there, after
  the last element, and the slice grows by one; without room a larger array is allocated,
  the elements are copied to it and the value is written after them. The language leaves the
  new capacity to the runtime, so the growth policy is the parameter \<open>growcap\<close> (old capacity
  to new capacity); the new array holds at least the elements and the value. Growing does
  not fail here: the limit \<open>maxAlloc\<close> is modelled for \<open>make\<close> only.
\<close>

definition append_slice :: "(nat \<Rightarrow> nat) \<Rightarrow> heap \<Rightarrow> slice \<Rightarrow> CheckResult \<Rightarrow> heap \<times> slice" where
  "append_slice growcap h s v =
     (if len s < cap s
      then (h[array s := (heap_array h (array s))[offset s + len s := v]],
            s\<lparr>len := len s + 1\<rparr>)
      else (let newcap = max (len s + 1) (growcap (cap s));
                arr = slice_elems h s @ [v] @ replicate (newcap - (len s + 1)) zeroCheckResult
            in (h @ [arr], \<lparr>array = length h, offset = 0, len = len s + 1, cap = newcap\<rparr>)))"

text \<open>
  \<open>s[1:]\<close>: the same array from the next index on. Go panics when the slice is empty;
  \<open>performCheck\<close> slices right after an \<open>append\<close>, so the slice has an element.
\<close>

definition slice_from1 :: "slice \<Rightarrow> slice" where
  "slice_from1 s = s\<lparr>offset := offset s + 1, len := len s - 1, cap := cap s - 1\<rparr>"

text \<open>\<open>copy(dst, src)\<close>: the first \<open>min(len(dst), len(src))\<close> elements of \<open>src\<close> written over those of \<open>dst\<close>.\<close>

definition copy_slice :: "heap \<Rightarrow> slice \<Rightarrow> slice \<Rightarrow> heap" where
  "copy_slice h dst src =
     (let n = min (len dst) (len src);
          arr = heap_array h (array dst)
      in h[array dst :=
             take (offset dst) arr @ take n (slice_elems h src) @ drop (offset dst + n) arr])"

section \<open>The status checker of a module\<close>

text \<open>
  The mutex \<open>mu\<close> is left out: every function below is one critical section, run as a whole.
\<close>

record StatusChecker =
  moduleName :: string
  path :: string
  results :: slice
  maxResults :: int

text \<open>\<open>time.Hour\<close>, a \<open>time.Duration\<close>: a number of nanoseconds.\<close>

definition Hour :: int where
  "Hour = 3600 * 1000000000"

text \<open>
  \<open>NewStatusChecker\<close>, with the global \<open>pollingInterval\<close> as a parameter. Go's integer
  division truncates towards zero (\<open>sdiv\<close>) and panics on a zero divisor; \<open>int\<close> has the
  64 bits of \<open>time.Duration\<close>, so the conversion changes nothing. The panic of \<open>make\<close>
  (line 112) ends the function.
\<close>

definition NewStatusChecker :: "int \<Rightarrow> heap \<Rightarrow> string \<Rightarrow> panic + heap \<times> StatusChecker" where
  "NewStatusChecker pollingInterval h name =
     (if pollingInterval = 0 then Inl DivideByZero
      else (let maxResults = (24 * Hour) sdiv pollingInterval;
                maxResults = (if maxResults < 1 then 1 else maxResults)
            in case makeslice h 0 (nat maxResults) of
                 Inl p \<Rightarrow> Inl p
               | Inr (h', rs) \<Rightarrow>
                   Inr (h', \<lparr>moduleName = name, path = ''/'' @ name @ ''/'',
                            results = rs, maxResults = maxResults\<rparr>)))"

text \<open>Lines 176 to 181 of \<open>performCheck\<close>: the new result enters the history.\<close>

definition appendResult ::
    "(nat \<Rightarrow> nat) \<Rightarrow> CheckResult \<Rightarrow> heap \<times> StatusChecker \<Rightarrow> heap \<times> StatusChecker" where
  "appendResult growcap newResult st =
     (case st of (h, sc) \<Rightarrow>
        (let (h', rs) = append_slice growcap h (results sc) newResult;
             rs = (if int (len rs) > maxResults sc then slice_from1 rs else rs)
         in (h', sc\<lparr>results := rs\<rparr>)))"

text \<open>
  \<open>performCheck\<close>: the time of the check and what the \<open>rsync\<close> command returned (its error
  and its combined output) are the inputs.
\<close>

definition performCheck ::
    "(nat \<Rightarrow> nat) \<Rightarrow> time \<Rightarrow> exec_error option \<Rightarrow> string \<Rightarrow> heap \<times> StatusChecker
      \<Rightarrow> heap \<times> StatusChecker" where
  "performCheck growcap now err out st =
     appendResult growcap (performCheck_newResult now err out) st"


section \<open>The HTTP handlers\<close>

text \<open>
  What a handler does to its \<open>http.ResponseWriter\<close>: the header map, the informational
  (1xx) status lines sent, the status of the response once it is fixed, and the values
  encoded to the body, in order. A JSON object is a map from keys to values, as the
  \<open>map[string]interface{}\<close> it is encoded from.
\<close>

datatype jvalue = JBool bool | JInt int | JString string | JTime time

type_synonym jobject = "string \<rightharpoonup> jvalue"

datatype jbody = JObject jobject | JArray "jobject list"

record ResponseWriter =
  header :: "string \<rightharpoonup> string"
  informational :: "int list"
  status :: "int option"
  body :: "jbody list"

definition newResponse :: ResponseWriter where
  "newResponse = \<lparr>header = Map.empty, informational = [], status = None, body = []\<rparr>"

text \<open>
  \<open>w.WriteHeader(code)\<close> of \<open>net/http\<close>: a call after the status is fixed is ignored (and
  logged); a code that is not three digits long panics; a 1xx code other than 101 sends an
  informational status line and leaves the response's status open; every other code
  becomes the status of the response.
\<close>

definition WriteHeader :: "int \<Rightarrow> ResponseWriter \<Rightarrow> panic + ResponseWriter" where
  "WriteHeader code w =
     (if status w \<noteq> None then Inr w
      else if code < 100 \<or> code > 999 then Inl (InvalidWriteHeaderCode code)
      else if 100 \<le> code \<and> code \<le> 199 \<and> code \<noteq> 101
           then Inr (w\<lparr>informational := informational w @ [code]\<rparr>)
      else Inr (w\<lparr>status := Some code\<rparr>))"

text \<open>The statuses whose response has a body (\<open>bodyAllowedForStatus\<close> of \<open>net/http\<close>).\<close>

definition bodyAllowedForStatus :: "int \<Rightarrow> bool" where
  "bodyAllowedForStatus code =
     (if 100 \<le> code \<and> code \<le> 199 then False
      else if code = 204 then False
      else if code = 304 then False
      else True)"

text \<open>
  \<open>json.NewEncoder(w).Encode(v)\<close>: the first write to a response whose status is still open
  fixes it to 200; then the value goes to the body, unless the status allows no body: the
  write is refused then, with an error that the handlers do not look at.
\<close>

definition Encode :: "jbody \<Rightarrow> ResponseWriter \<Rightarrow> ResponseWriter" where
  "Encode v w =
     (let w = (if status w = None then w\<lparr>status := Some StatusOK\<rparr> else w)
      in case status w of
           None \<Rightarrow> w
         | Some code \<Rightarrow> if bodyAllowedForStatus code then w\<lparr>body := body w @ [v]\<rparr> else w)"

text \<open>Lines 185 to 188 of \<open>ServeHTTP\<close>: the copy of the history made under the read lock.\<close>

definition snapshot :: "heap \<Rightarrow> StatusChecker \<Rightarrow> panic + heap \<times> slice" where
  "snapshot h sc =
     (case makeslice h (len (results sc)) (len (results sc)) of
        Inl p \<Rightarrow> Inl p
      | Inr (h1, resultsCopy) \<Rightarrow> Inr (copy_slice h1 resultsCopy (results sc), resultsCopy))"

text \<open>The body of the loop of \<open>ServeHTTP\<close> (lines 200 to 223): the JSON object of one result.\<close>

definition resultEntry :: "StatusChecker \<Rightarrow> CheckResult \<Rightarrow> jobject" where
  "resultEntry sc res =
     (let m = Map.empty;
          m = m(''is_up'' \<mapsto> JBool (IsUp res));
          m = m(''success'' \<mapsto> JBool (IsUp res));
          m = (if IsUp res then m(''message'' \<mapsto> JString (Message res))
               else m(''error'' \<mapsto> JString (Error res)));
          m = m(''http_status'' \<mapsto> JInt (HTTPStatus res));
          m = m(''timestamp'' \<mapsto> JTime (Timestamp res));
          m = m(''path'' \<mapsto> JString (path sc));
          m = (if RsyncOutput res \<noteq> [] then m(''rsync_output'' \<mapsto> JString (RsyncOutput res))
               else m)
      in if \<not> IsUp res
         then (let m = m(''code'' \<mapsto> JInt (RsyncExitCode res))
               in if RsyncExitCode res \<noteq> 0
                  then m(''rsync_exit_code'' \<mapsto> JInt (RsyncExitCode res)) else m)
         else m(''code'' \<mapsto> JInt 0))"

text \<open>
  \<open>ServeHTTP\<close>. The request is not read, so it is no parameter. The heap comes back in
  every case, with the copy when it was allocated; \<open>resp\<close> stays \<open>nil\<close> when there is no
  result, and the encoder writes \<open>null\<close> for it: the empty list stands for both.
\<close>

definition ServeHTTP ::
    "heap \<Rightarrow> StatusChecker \<Rightarrow> ResponseWriter \<Rightarrow> heap \<times> (panic + ResponseWriter)" where
  "ServeHTTP h sc w =
     (case snapshot h sc of
        Inl p \<Rightarrow> (h, Inl p)
      | Inr (h', resultsCopy) \<Rightarrow>
          (let rs = slice_elems h' resultsCopy;
               w = w\<lparr>header := (header w)(''Content-Type'' \<mapsto> ''application/json'')\<rparr>
           in (h', case (if length rs > 0 then WriteHeader (HTTPStatus (last rs)) w else Inr w) of
                     Inl p \<Rightarrow> Inl p
                   | Inr w \<Rightarrow> Inr (Encode (JArray (map (resultEntry sc) rs)) w))))"

definition writeJSONError :: "ResponseWriter \<Rightarrow> int \<Rightarrow> string \<Rightarrow> string \<Rightarrow> panic + ResponseWriter" where
  "writeJSONError w statusCode message urlPath =
     (let w = w\<lparr>header := (header w)(''Content-Type'' \<mapsto> ''application/json'')\<rparr>
      in case WriteHeader statusCode w of
           Inl p \<Rightarrow> Inl p
         | Inr w \<Rightarrow>
             Inr (Encode (JObject [''path'' \<mapsto> JString urlPath, ''success'' \<mapsto> JBool False,
                    ''error'' \<mapsto> JString message, ''code'' \<mapsto> JInt statusCode]) w))"

text \<open>The messages of the handler of \<open>/status/\<close>; the second one is UTF-8 text.\<close>

definition emptyModuleMessage :: string where
  "emptyModuleMessage = ''Module name cannot be empty. Path should be /status/<module-name>.''"

definition invalidModuleMessage :: "string \<Rightarrow> string" where
  "invalidModuleMessage module =
     ''Nome de m'' @ [CHR 0xC3, CHR 0xB3] @ ''dulo inv'' @ [CHR 0xC3, CHR 0xA1] @ ''lido: ''
     @ [CHR 0x27] @ module @ [CHR 0x27]
     @ ''. Permitidos apenas letras, n'' @ [CHR 0xC3, CHR 0xBA] @ ''meros, h''
     @ [CHR 0xC3, CHR 0xAD] @ ''fen, underline e ponto. Exemplo v'' @ [CHR 0xC3, CHR 0xA1]
     @ ''lido: debian-archive. Consulte a documenta'' @ [CHR 0xC3, CHR 0xA7, CHR 0xC3, CHR 0xA3]
     @ ''o.''"

definition notMonitoredMessage :: "string \<Rightarrow> string" where
  "notMonitoredMessage module =
     ''Module '' @ [CHR 0x27] @ module @ [CHR 0x27] @ '' is not monitored.''"

text \<open>
  The handler \<open>main\<close> registers for \<open>/status/\<close> (lines 309 to 326), on the path of the
  request's URL; \<open>checkers\<close> is the map from the module names to their checkers.
\<close>

definition statusHandler ::
    "heap \<Rightarrow> (string \<rightharpoonup> StatusChecker) \<Rightarrow> ResponseWriter \<Rightarrow> string
      \<Rightarrow> heap \<times> (panic + ResponseWriter)" where
  "statusHandler h checkers w urlPath =
     (let module = TrimPrefix urlPath ''/status/''
      in if module = []
         then (h, writeJSONError w StatusBadRequest emptyModuleMessage urlPath)
         else if \<not> isValidModulePath module
         then (h, writeJSONError w StatusBadRequest (invalidModuleMessage module) urlPath)
         else (case checkers module of
                 None \<Rightarrow> (h, writeJSONError w StatusNotFound (notMonitoredMessage module) urlPath)
               | Some checker \<Rightarrow> ServeHTTP h checker w))"

section \<open>The life of a checker\<close>

text \<open>
  After \<open>NewStatusChecker\<close>, two things happen to a checker, in any order and number: a
  tick of \<open>StartPolling\<close> runs \<open>performCheck\<close>, and a request runs \<open>ServeHTTP\<close> (on a new
  response), which changes the heap only.
\<close>

datatype event = Tick time "exec_error option" string | Query

fun step :: "(nat \<Rightarrow> nat) \<Rightarrow> heap \<times> StatusChecker \<Rightarrow> event \<Rightarrow> heap \<times> StatusChecker" where
  "step growcap st (Tick now err out) = performCheck growcap now err out st"
| "step growcap (h, sc) Query = (fst (ServeHTTP h sc newResponse), sc)"

definition run :: "(nat \<Rightarrow> nat) \<Rightarrow> event list \<Rightarrow> heap \<times> StatusChecker \<Rightarrow> heap \<times> StatusChecker" where
  "run growcap evs st = foldl (step growcap) st evs"

text \<open>The results of the ticks among the events, in their order.\<close>

fun outcomes :: "event list \<Rightarrow> CheckResult list" where
  "outcomes [] = []"
| "outcomes (Tick now err out # evs) = performCheck_newResult now err out # outcomes evs"
| "outcomes (Query # evs) = outcomes evs"

section \<open>Well-formed slices\<close>

text \<open>
  A slice is well formed in a heap when its array is allocated and holds the whole
  capacity of the slice, and the length is within the capacity.
\<close>

definition slice_ok :: "heap \<Rightarrow> slice \<Rightarrow> bool" where
  "slice_ok h s =
     (array s < length h \<and> len s \<le> cap s \<and> offset s + cap s \<le> length (heap_array h (array s)))"

text \<open>The last \<open>k\<close> elements of a list, all of them when there are fewer.\<close>

definition lastn :: "nat \<Rightarrow> 'a list \<Rightarrow> 'a list" where
  "lastn k xs = drop (length xs - k) xs"

section \<open>Properties of the library functions\<close>

lemma HasPrefix_prefix: "HasPrefix s p = prefix p s"
  by (induction s p rule: HasPrefix.induct) auto

lemma Contains_sublist: "Contains s substr = sublist substr s"
  by (induction s) (auto simp: HasPrefix_prefix sublist_Cons_right)

text \<open>
  The pieces of \<open>Split_newline\<close> hold no newline and give the string back when joined; what
  \<open>TrimSpace\<close> returns is a part of its argument, and starts with no white space.
\<close>

lemma Split_newline_not_Nil: "Split_newline s \<noteq> []"
  by (induction s) (auto split: list.splits)

lemma Split_newline_join:
  "concat (map ((#) (CHR 0x0A)) (Split_newline s)) = CHR 0x0A # s"
  by (induction s) (auto split: list.splits simp: Split_newline_not_Nil)

lemma Split_newline_lines: "l \<in> set (Split_newline s) \<Longrightarrow> CHR 0x0A \<notin> set l"
  by (induction s arbitrary: l) (auto split: list.splits if_splits)

lemma trim_encodings_suffix: "suffix (trim_encodings encs s) s"
proof (induction encs s rule: trim_encodings.induct)
  case (1 encs)
  then show ?case by simp
next
  case (2 encs c cs)
  show ?case
  proof (cases "space_width encs (c # cs) = 0")
    case True
    then show ?thesis by simp
  next
    case False
    with 2 have "suffix (trim_encodings encs (c # cs)) (drop (space_width encs (c # cs) - 1) cs)"
      by simp
    then show ?thesis
      by (meson suffix_ConsI suffix_drop suffix_order.trans)
  qed
qed

lemma space_width_Nil: "space_width encs [] = 0"
proof (cases "find (HasPrefix []) encs")
  case None
  then show ?thesis by (simp add: space_width_def)
next
  case (Some e)
  then have "HasPrefix [] e" by (auto simp: find_Some_iff)
  then have "e = []" by (cases e) simp_all
  with Some show ?thesis by (simp add: space_width_def)
qed

lemma trim_encodings_done: "space_width encs (trim_encodings encs s) = 0"
  by (induction encs s rule: trim_encodings.induct) (simp_all add: space_width_Nil)

lemma TrimSpace_sublist: "sublist (TrimSpace s) s"
proof -
  have "suffix (TrimLeftSpace s) s"
    by (simp add: TrimLeftSpace_def trim_encodings_suffix)
  moreover have "prefix (TrimRightSpace t) t" for t
    using trim_encodings_suffix[of "map rev space_encodings" "rev t"]
    by (simp add: TrimRightSpace_def suffix_to_prefix)
  ultimately show ?thesis
    unfolding TrimSpace_def
    by (meson prefix_imp_sublist suffix_imp_sublist sublist_order.order_trans)
qed

lemma firstLine_loop_find:
  "(if firstLine_loop ls = [] then d else firstLine_loop ls) =
     (case find (\<lambda>l. TrimSpace l \<noteq> []) ls of None \<Rightarrow> d | Some l \<Rightarrow> TrimSpace l)"
  by (induction ls) auto

lemma in_class_module_class:
  "in_class module_class c =
     (c \<in> set ''abcdefghijklmnopqrstuvwxyzABCDEFGHIJKLMNOPQRSTUVWXYZ0123456789-_.'')"
  by (cases c) (simp add: in_class_def module_class_def)

lemma match_class_plus_all: "match_class_plus cls s = (s \<noteq> [] \<and> list_all (in_class cls) s)"
  by (induction s) auto

lemma isValidModulePath_iff:
  "isValidModulePath s =
     (s \<noteq> [] \<and> set s \<subseteq> set ''abcdefghijklmnopqrstuvwxyzABCDEFGHIJKLMNOPQRSTUVWXYZ0123456789-_.'')"
  unfolding isValidModulePath_def match_class_plus_all list_all_iff in_class_module_class
  by blast

section \<open>Properties of slices\<close>

lemma length_slice_elems: "slice_ok h s \<Longrightarrow> length (slice_elems h s) = len s"
  by (auto simp: slice_ok_def slice_elems_def)

lemma makeslice_props:
  assumes "makeslice h n c = Inr (h', s)"
  shows "slice_ok h' s" and "slice_elems h' s = replicate n zeroCheckResult"
    and "length h' = Suc (length h)" and "array s = length h"
    and "a < length h \<Longrightarrow> heap_array h' a = heap_array h a"
    and "n \<le> c" and "sizeofCheckResult * int c \<le> maxAlloc"
  using assms
  by (auto simp: makeslice_def slice_ok_def slice_elems_def heap_array_def nth_append
      split: if_splits)

lemma makeslice_succeeds:
  assumes "n \<le> c" and "sizeofCheckResult * int c \<le> maxAlloc"
  shows "makeslice h n c =
     Inr (h @ [replicate c zeroCheckResult], \<lparr>array = length h, offset = 0, len = n, cap = c\<rparr>)"
  using assms by (simp add: makeslice_def)

lemma append_slice_props:
  assumes "slice_ok h s" and "append_slice g h s v = (h', s')"
  shows "slice_ok h' s'" and "slice_elems h' s' = slice_elems h s @ [v]"
    and "length h \<le> length h'"
    and "a < length h \<Longrightarrow> a \<noteq> array s \<Longrightarrow> a \<noteq> array s' \<and> heap_array h' a = heap_array h a"
proof -
  show "slice_ok h' s'"
    using assms
    by (auto simp: append_slice_def slice_ok_def heap_array_def Let_def slice_elems_def
        split: if_splits)
  show "slice_elems h' s' = slice_elems h s @ [v]"
  proof (cases "len s < cap s")
    case True
    then have "offset s + len s < length (h ! array s)" and "array s < length h"
      using assms(1) by (auto simp: slice_ok_def heap_array_def)
    then show ?thesis
      using assms True
      by (auto simp: append_slice_def slice_elems_def heap_array_def take_Suc_conv_app_nth
          drop_update_swap)
  next
    case False
    then show ?thesis
      using assms length_slice_elems[OF assms(1)]
      by (auto simp: append_slice_def Let_def slice_elems_def[of "h @ _"] heap_array_def)
  qed
  show "length h \<le> length h'"
    using assms by (auto simp: append_slice_def Let_def split: if_splits)
  show "a < length h \<Longrightarrow> a \<noteq> array s \<Longrightarrow> a \<noteq> array s' \<and> heap_array h' a = heap_array h a"
    using assms by (auto simp: append_slice_def Let_def heap_array_def nth_append split: if_splits)
qed

lemma slice_from1_props:
  assumes "slice_ok h s" and "0 < len s"
  shows "slice_ok h (slice_from1 s)" and "slice_elems h (slice_from1 s) = tl (slice_elems h s)"
    and "array (slice_from1 s) = array s"
  using assms
  by (auto simp: slice_from1_def slice_ok_def slice_elems_def tl_take drop_Suc tl_drop)

lemma copy_new_slice:
  assumes "slice_ok h src" and "makeslice h (len src) (len src) = Inr (h1, dst)"
  shows "slice_elems (copy_slice h1 dst src) dst = slice_elems h src"
    and "length (copy_slice h1 dst src) = Suc (length h)"
    and "a < length h \<Longrightarrow> heap_array (copy_slice h1 dst src) a = heap_array h a"
    and "slice_ok (copy_slice h1 dst src) dst"
proof -
  have h1: "h1 = h @ [replicate (len src) zeroCheckResult]"
    and dst: "dst = \<lparr>array = length h, offset = 0, len = len src, cap = len src\<rparr>"
    using assms(2) by (auto simp: makeslice_def split: if_splits)
  have src: "array src < length h" using assms(1) by (simp add: slice_ok_def)
  then have same: "slice_elems h1 src = slice_elems h src"
    by (simp add: h1 slice_elems_def heap_array_def nth_append)
  have n: "length (slice_elems h src) = len src"
    by (rule length_slice_elems[OF assms(1)])
  show "slice_elems (copy_slice h1 dst src) dst = slice_elems h src"
    using n by (simp add: copy_slice_def same Let_def) (simp add: h1 dst slice_elems_def[of _ "\<lparr>array = _, offset = _, len = _, cap = _\<rparr>"] heap_array_def)
  show "length (copy_slice h1 dst src) = Suc (length h)"
    by (simp add: copy_slice_def Let_def h1)
  show "a < length h \<Longrightarrow> heap_array (copy_slice h1 dst src) a = heap_array h a"
    by (simp add: copy_slice_def Let_def h1 dst heap_array_def nth_append)
  show "slice_ok (copy_slice h1 dst src) dst"
    using n by (simp add: copy_slice_def same Let_def) (simp add: h1 dst slice_ok_def heap_array_def)
qed

lemma snapshot_props:
  assumes "slice_ok h (results sc)" and "snapshot h sc = Inr (h', snap)"
  shows "slice_elems h' snap = slice_elems h (results sc)"
    and "length h' = Suc (length h)" and "array snap = length h"
    and "a < length h \<Longrightarrow> heap_array h' a = heap_array h a"
    and "slice_ok h' snap"
proof -
  obtain h1 dst where m: "makeslice h (len (results sc)) (len (results sc)) = Inr (h1, dst)"
    and eq: "h' = copy_slice h1 dst (results sc)" "snap = dst"
    using assms(2) by (auto simp: snapshot_def split: sum.splits)
  show "slice_elems h' snap = slice_elems h (results sc)"
    unfolding eq by (rule copy_new_slice(1)[OF assms(1) m])
  show "length h' = Suc (length h)"
    unfolding eq by (rule copy_new_slice(2)[OF assms(1) m])
  show "array snap = length h"
    using makeslice_props(4)[OF m] by (simp add: eq)
  show "a < length h \<Longrightarrow> heap_array h' a = heap_array h a"
    unfolding eq by (rule copy_new_slice(3)[OF assms(1) m])
  show "slice_ok h' snap"
    unfolding eq by (rule copy_new_slice(4)[OF assms(1) m])
qed

lemma snapshot_succeeds:
  assumes "sizeofCheckResult * int (len (results sc)) \<le> maxAlloc"
  shows "\<exists>h' snap. snapshot h sc = Inr (h', snap)"
  using assms by (simp add: snapshot_def makeslice_def)

lemma slice_ok_frame:
  assumes "slice_ok h s" and "length h \<le> length h'"
    and "heap_array h' (array s) = heap_array h (array s)"
  shows "slice_ok h' s" and "slice_elems h' s = slice_elems h s"
  using assms by (auto simp: slice_ok_def slice_elems_def)

lemma length_lastn: "length (lastn k xs) = min k (length xs)"
  by (auto simp: lastn_def)

lemma lastn_short: "length xs \<le> k \<Longrightarrow> lastn k xs = xs"
  by (simp add: lastn_def)

lemma lastn_lastn_append: "lastn k (lastn k xs @ ys) = lastn k (xs @ ys)"
proof (cases "length xs \<le> k")
  case True
  then show ?thesis by (simp add: lastn_short)
next
  case False
  then have "length xs - k + length ys = length xs + length ys - k" by simp
  with False show ?thesis
    by (simp add: lastn_def drop_append add.commute)
qed

lemma tick_lastn:
  assumes "int (length xs) \<le> m" and "1 \<le> m"
  shows "(if int (length xs) + 1 > m then tl (xs @ [r]) else xs @ [r]) = lastn (nat m) (xs @ [r])"
proof (cases "int (length xs) + 1 > m")
  case True
  with assms have e: "length (xs @ [r]) - nat m = Suc 0" by simp
  have "lastn (nat m) (xs @ [r]) = tl (xs @ [r])"
    unfolding lastn_def e by (simp only: drop_Suc drop_0)
  with True show ?thesis by (simp only: if_True)
next
  case False
  then have "length (xs @ [r]) \<le> nat m" by simp
  with False show ?thesis by (simp only: lastn_short if_False)
qed

section \<open>Invariants of the checker\<close>

lemma appendResult_props:
  assumes "slice_ok h (results sc)" and "appendResult g r (h, sc) = (h', sc')"
  shows "slice_ok h' (results sc')"
    and "slice_elems h' (results sc') =
           (if int (length (slice_elems h (results sc))) + 1 > maxResults sc
            then tl (slice_elems h (results sc) @ [r]) else slice_elems h (results sc) @ [r])"
    and "maxResults sc' = maxResults sc" and "moduleName sc' = moduleName sc" and "path sc' = path sc"
    and "length h \<le> length h'"
    and "a < length h \<Longrightarrow> a \<noteq> array (results sc)
          \<Longrightarrow> a \<noteq> array (results sc') \<and> heap_array h' a = heap_array h a"
proof -
  obtain rs where ap: "append_slice g h (results sc) r = (h', rs)"
    and sc': "sc' = sc\<lparr>results := (if int (len rs) > maxResults sc then slice_from1 rs else rs)\<rparr>"
    using assms(2) by (auto simp: appendResult_def Let_def split: prod.splits)
  note A = append_slice_props[OF assms(1) ap]
  have len: "len rs = Suc (length (slice_elems h (results sc)))"
    using length_slice_elems[OF A(1)] A(2) by simp
  then have pos: "0 < len rs" by simp
  show "slice_ok h' (results sc')"
    using A(1) slice_from1_props(1)[OF A(1) pos] by (simp add: sc')
  show "slice_elems h' (results sc') =
           (if int (length (slice_elems h (results sc))) + 1 > maxResults sc
            then tl (slice_elems h (results sc) @ [r]) else slice_elems h (results sc) @ [r])"
    using A(2) slice_from1_props(2)[OF A(1) pos] len by (simp add: sc')
  show "maxResults sc' = maxResults sc" "moduleName sc' = moduleName sc" "path sc' = path sc"
    by (simp_all add: sc')
  show "length h \<le> length h'" by (rule A(3))
  show "a < length h \<Longrightarrow> a \<noteq> array (results sc)
          \<Longrightarrow> a \<noteq> array (results sc') \<and> heap_array h' a = heap_array h a"
    using A(4)[of a] slice_from1_props(3)[OF A(1) pos] by (simp add: sc')
qed

lemma ServeHTTP_heap:
  "fst (ServeHTTP h sc w) = (case snapshot h sc of Inl p \<Rightarrow> h | Inr (h', snap) \<Rightarrow> h')"
  by (simp add: ServeHTTP_def Let_def split: sum.splits prod.splits)

lemma step_props:
  assumes "slice_ok h (results sc)" and "step g (h, sc) e = (h', sc')"
  shows "slice_ok h' (results sc')"
    and "maxResults sc' = maxResults sc" and "moduleName sc' = moduleName sc" and "path sc' = path sc"
    and "length h \<le> length h'"
    and "slice_elems h' (results sc') =
           (case e of
              Tick now err out \<Rightarrow>
                (if int (length (slice_elems h (results sc))) + 1 > maxResults sc
                 then tl (slice_elems h (results sc) @ [performCheck_newResult now err out])
                 else slice_elems h (results sc) @ [performCheck_newResult now err out])
            | Query \<Rightarrow> slice_elems h (results sc))"
    and "a < length h \<Longrightarrow> a \<noteq> array (results sc)
          \<Longrightarrow> a \<noteq> array (results sc') \<and> heap_array h' a = heap_array h a"
proof -
  have "slice_ok h' (results sc') \<and> maxResults sc' = maxResults sc \<and> moduleName sc' = moduleName sc
      \<and> path sc' = path sc \<and> length h \<le> length h'
      \<and> slice_elems h' (results sc') =
           (case e of
              Tick now err out \<Rightarrow>
                (if int (length (slice_elems h (results sc))) + 1 > maxResults sc
                 then tl (slice_elems h (results sc) @ [performCheck_newResult now err out])
                 else slice_elems h (results sc) @ [performCheck_newResult now err out])
            | Query \<Rightarrow> slice_elems h (results sc))
      \<and> (a < length h \<longrightarrow> a \<noteq> array (results sc)
          \<longrightarrow> a \<noteq> array (results sc') \<and> heap_array h' a = heap_array h a)"
  proof (cases e)
    case (Tick now err out)
    then have ap: "appendResult g (performCheck_newResult now err out) (h, sc) = (h', sc')"
      using assms(2) by (simp add: performCheck_def)
    note A = appendResult_props[OF assms(1) ap]
    show ?thesis
      using A(1-6) A(7)[of a] by (simp add: Tick)
  next
    case Query
    show ?thesis
    proof (cases "snapshot h sc")
      case (Inl p)
      with Query assms(2) have "h' = h" "sc' = sc"
        by (simp_all add: ServeHTTP_heap)
      with assms(1) show ?thesis by (simp add: Query)
    next
      case (Inr r)
      obtain h2 snap where sn: "snapshot h sc = Inr (h2, snap)"
        using Inr by (cases r) simp
      with Query assms(2) have eq: "h' = h2" "sc' = sc"
        by (simp_all add: ServeHTTP_heap)
      note S = snapshot_props[OF assms(1) sn]
      have arr: "array (results sc) < length h" using assms(1) by (simp add: slice_ok_def)
      have le: "length h \<le> length h2" using S(2) by simp
      note F = slice_ok_frame[OF assms(1) le S(4)[OF arr]]
      show ?thesis
        using F le S(4)[of a] by (simp add: eq Query)
    qed
  qed
  then show "slice_ok h' (results sc')"
    and "maxResults sc' = maxResults sc" and "moduleName sc' = moduleName sc" and "path sc' = path sc"
    and "length h \<le> length h'"
    and "slice_elems h' (results sc') =
           (case e of
              Tick now err out \<Rightarrow>
                (if int (length (slice_elems h (results sc))) + 1 > maxResults sc
                 then tl (slice_elems h (results sc) @ [performCheck_newResult now err out])
                 else slice_elems h (results sc) @ [performCheck_newResult now err out])
            | Query \<Rightarrow> slice_elems h (results sc))"
    and "a < length h \<Longrightarrow> a \<noteq> array (results sc)
          \<Longrightarrow> a \<noteq> array (results sc') \<and> heap_array h' a = heap_array h a"
    by blast+
qed

lemma run_Cons: "run g (e # evs) st = run g evs (step g st e)"
  by (simp add: run_def)

lemma run_props:
  assumes "slice_ok h (results sc)" and "int (length (slice_elems h (results sc))) \<le> maxResults sc"
    and "1 \<le> maxResults sc" and "run g evs (h, sc) = (h', sc')"
  shows "slice_ok h' (results sc') \<and> maxResults sc' = maxResults sc
      \<and> moduleName sc' = moduleName sc \<and> path sc' = path sc \<and> length h \<le> length h'
      \<and> slice_elems h' (results sc') =
          lastn (nat (maxResults sc)) (slice_elems h (results sc) @ outcomes evs)"
  using assms
proof (induction evs arbitrary: h sc)
  case Nil
  then show ?case by (simp add: run_def lastn_short)
next
  case (Cons e evs)
  obtain h1 sc1 where st: "step g (h, sc) e = (h1, sc1)" by (cases "step g (h, sc) e")
  note S = step_props[OF Cons.prems(1) st]
  have el: "slice_elems h1 (results sc1) =
      lastn (nat (maxResults sc)) (slice_elems h (results sc) @ outcomes [e])"
  proof (cases e)
    case (Tick now err out)
    then show ?thesis
      using S(6) tick_lastn[OF Cons.prems(2,3)] by simp
  next
    case Query
    then show ?thesis using S(6) Cons.prems(2) by (simp add: lastn_short)
  qed
  have len: "int (length (slice_elems h1 (results sc1))) \<le> maxResults sc1"
    using Cons.prems(3) by (simp add: el S(2) length_lastn)
  have one: "1 \<le> maxResults sc1" using Cons.prems(3) by (simp add: S(2))
  have r: "run g evs (h1, sc1) = (h', sc')"
    using Cons.prems(4) by (simp add: run_Cons st)
  note IH = Cons.IH[OF S(1) len one r]
  have out: "outcomes (e # evs) = outcomes [e] @ outcomes evs"
    by (cases e) simp_all
  show ?case
    using IH S(5) by (simp add: S(2,3,4) el out lastn_lastn_append)
qed

lemma run_frame:
  assumes "slice_ok h (results sc)" and "run g evs (h, sc) = (h', sc')"
    and "a < length h" and "a \<noteq> array (results sc)"
  shows "heap_array h' a = heap_array h a \<and> length h \<le> length h' \<and> a \<noteq> array (results sc')"
  using assms
proof (induction evs arbitrary: h sc)
  case Nil
  then show ?case by (simp add: run_def)
next
  case (Cons e evs)
  obtain h1 sc1 where st: "step g (h, sc) e = (h1, sc1)" by (cases "step g (h, sc) e")
  note S = step_props[OF Cons.prems(1) st]
  have r: "run g evs (h1, sc1) = (h', sc')"
    using Cons.prems(2) by (simp add: run_Cons st)
  have a1: "a < length h1" using Cons.prems(3) S(5) by simp
  have a2: "a \<noteq> array (results sc1)" and same: "heap_array h1 a = heap_array h a"
    using S(7)[OF Cons.prems(3,4)] by simp_all
  show ?case
    using Cons.IH[OF S(1) r a1 a2] same S(5) by simp
qed

lemma NewStatusChecker_props:
  assumes "NewStatusChecker pollingInterval h name = Inr (h0, sc0)"
  shows "slice_ok h0 (results sc0)" and "slice_elems h0 (results sc0) = []"
    and "maxResults sc0 = max 1 ((24 * Hour) sdiv pollingInterval)"
    and "cap (results sc0) = nat (maxResults sc0)"
    and "moduleName sc0 = name" and "path sc0 = ''/'' @ name @ ''/''"
    and "pollingInterval \<noteq> 0"
    and "sizeofCheckResult * maxResults sc0 \<le> maxAlloc"
    and "h0 = h @ [replicate (nat (maxResults sc0)) zeroCheckResult]"
    and "array (results sc0) = length h"
  using assms
  by (auto simp: NewStatusChecker_def Let_def makeslice_def slice_ok_def slice_elems_def
      heap_array_def split: if_splits)

lemma reachable_props:
  assumes "NewStatusChecker pollingInterval h name = Inr (h0, sc0)"
    and "run g evs (h0, sc0) = (h1, sc1)"
  shows "slice_ok h1 (results sc1)"
    and "slice_elems h1 (results sc1) = lastn (nat (maxResults sc0)) (outcomes evs)"
    and "maxResults sc1 = maxResults sc0"
    and "sizeofCheckResult * int (len (results sc1)) \<le> maxAlloc"
proof -
  note N = NewStatusChecker_props[OF assms(1)]
  have one: "1 \<le> maxResults sc0" by (simp add: N(3))
  have len: "int (length (slice_elems h0 (results sc0))) \<le> maxResults sc0"
    using one by (simp add: N(2))
  from run_props[OF N(1) len one assms(2)]
  show ok: "slice_ok h1 (results sc1)"
    and el: "slice_elems h1 (results sc1) = lastn (nat (maxResults sc0)) (outcomes evs)"
    and "maxResults sc1 = maxResults sc0"
    by (simp_all add: N(2))
  have "int (len (results sc1)) \<le> maxResults sc0"
    using length_slice_elems[OF ok] one by (simp add: el length_lastn)
  then have "sizeofCheckResult * int (len (results sc1)) \<le> sizeofCheckResult * maxResults sc0"
    by (intro mult_left_mono) (simp_all add: sizeofCheckResult_def)
  from this N(8) show "sizeofCheckResult * int (len (results sc1)) \<le> maxAlloc"
    by (rule order_trans)
qed

lemma appendAll_props:
  assumes "slice_ok h (results sc)" and "int (length (slice_elems h (results sc))) \<le> maxResults sc"
    and "1 \<le> maxResults sc" and "foldl (\<lambda>st r. appendResult g r st) (h, sc) rs = (h', sc')"
  shows "maxResults sc' = maxResults sc
      \<and> slice_elems h' (results sc') = lastn (nat (maxResults sc)) (slice_elems h (results sc) @ rs)"
  using assms
proof (induction rs arbitrary: h sc)
  case Nil
  then show ?case by (simp add: lastn_short)
next
  case (Cons r rs)
  obtain h1 sc1 where st: "appendResult g r (h, sc) = (h1, sc1)"
    by (cases "appendResult g r (h, sc)")
  note A = appendResult_props[OF Cons.prems(1) st]
  have el: "slice_elems h1 (results sc1) = lastn (nat (maxResults sc)) (slice_elems h (results sc) @ [r])"
    using A(2) tick_lastn[OF Cons.prems(2,3)] by simp
  have len: "int (length (slice_elems h1 (results sc1))) \<le> maxResults sc1"
    using Cons.prems(3) by (simp add: el A(3) length_lastn)
  have one: "1 \<le> maxResults sc1" using Cons.prems(3) by (simp add: A(3))
  have r: "foldl (\<lambda>st r. appendResult g r st) (h1, sc1) rs = (h', sc')"
    using Cons.prems(4) by (simp add: st)
  have "lastn (nat (maxResults sc)) (lastn (nat (maxResults sc)) (slice_elems h (results sc) @ [r]) @ rs)
      = lastn (nat (maxResults sc)) ((slice_elems h (results sc) @ [r]) @ rs)"
    by (rule lastn_lastn_append)
  then show ?case
    using Cons.IH[OF A(1) len one r] by (simp add: A(3) el)
qed

lemma outcome_status:
  "r \<in> set (outcomes evs) \<Longrightarrow>
     (IsUp r \<and> HTTPStatus r = StatusOK)
     \<or> (\<not> IsUp r \<and> (HTTPStatus r = StatusNotFound \<or> HTTPStatus r = StatusInternalServerError))"
proof (induction evs rule: outcomes.induct)
  case 1
  then show ?case by simp
next
  case (2 now err out evs)
  have "IsUp (performCheck_newResult now err out) \<and> HTTPStatus (performCheck_newResult now err out) = StatusOK
     \<or> (\<not> IsUp (performCheck_newResult now err out) \<and> (HTTPStatus (performCheck_newResult now err out) = StatusNotFound
        \<or> HTTPStatus (performCheck_newResult now err out) = StatusInternalServerError))"
    by (simp add: performCheck_newResult_def Let_def split: option.split exec_error.split)
  with 2 show ?case by auto
next
  case (3 evs)
  then show ?case by simp
qed

lemma ServeHTTP_response:
  assumes "slice_ok h (results sc)" and "sizeofCheckResult * int (len (results sc)) \<le> maxAlloc"
    and "slice_elems h (results sc) \<noteq> [] \<Longrightarrow> HTTPStatus (last (slice_elems h (results sc))) \<in> {StatusOK, StatusNotFound, StatusInternalServerError}"
  shows "snd (ServeHTTP h sc newResponse) =
      Inr \<lparr>header = [''Content-Type'' \<mapsto> ''application/json''], informational = [],
           status = Some (if slice_elems h (results sc) = [] then StatusOK
                          else HTTPStatus (last (slice_elems h (results sc)))),
           body = [JArray (map (resultEntry sc) (slice_elems h (results sc)))]\<rparr>"
proof -
  obtain h2 snap where sn: "snapshot h sc = Inr (h2, snap)"
    using snapshot_succeeds[OF assms(2)] by blast
  note S = snapshot_props(1)[OF assms(1) sn]
  show ?thesis
  proof (cases "slice_elems h (results sc) = []")
    case True
    then show ?thesis
      by (simp add: ServeHTTP_def sn S Let_def newResponse_def Encode_def
          bodyAllowedForStatus_def)
  next
    case False
    with assms(3) show ?thesis
      by (auto simp: ServeHTTP_def sn S Let_def newResponse_def Encode_def WriteHeader_def
          bodyAllowedForStatus_def)
  qed
qed

text \<open>Evaluation of the functions on concrete inputs.\<close>

lemmas trim_eval = TrimSpace_def TrimLeftSpace_def TrimRightSpace_def space_width_def
  space_encodings_def

lemmas run_eval = NewStatusChecker_def Hour_def signed_divide_int_def makeslice_def
  sizeofCheckResult_def maxAlloc_def appendResult_def append_slice_def slice_from1_def slice_elems_def heap_array_def
  zeroCheckResult_def Let_def

text \<open>
  A run with a capacity of two: five ticks and two requests. The history ends in the fifth
  array of the heap, the copies of the requests are the second and the fourth.
\<close>

lemma history_example:
  "case NewStatusChecker (12 * Hour) [] ''debian'' of
     Inl p \<Rightarrow> False
   | Inr st0 \<Rightarrow>
       (case run (\<lambda>c. 2 * c)
          [Tick 1 None [], Query, Tick 2 (Some OtherError) ''boom'', Tick 3 None [], Query,
           Tick 4 None [], Tick 5 None []] st0 of
          (h, sc) \<Rightarrow>
            results sc = \<lparr>array = 4, offset = 1, len = 2, cap = 3\<rparr>
            \<and> map Timestamp (slice_elems h (results sc)) = [4, 5]
            \<and> map (map Timestamp) h = [[1, 2], [1], [1, 2, 3, 4], [2, 3], [3, 4, 5, 0]])"
  by code_simp

section \<open>The claims\<close>

subsection \<open>The history store\<close>

text \<open>
  C1. A checker made by \<open>NewStatusChecker\<close> receives the results \<open>rs\<close> one after the other
  (lines 176 to 181 of \<open>performCheck\<close>, with any growth policy of \<open>append\<close>). Its capacity
  \<open>maxResults\<close> never changes, the history never holds more than \<open>maxResults\<close> results, and
  it holds the last \<open>maxResults\<close> of the results appended (all of them while they are fewer),
  in the order of the appends: after \<open>maxResults + k\<close> appends, the first \<open>k\<close> are gone.
\<close>

theorem history_bounded_fifo:
  assumes "NewStatusChecker pollingInterval h name = Inr st0"
    and "foldl (\<lambda>st r. appendResult growcap r st) st0 rs = (h', sc')"
  shows "maxResults sc' = maxResults (snd st0)
    \<and> int (length (slice_elems h' (results sc'))) \<le> maxResults sc'
    \<and> slice_elems h' (results sc') = drop (length rs - nat (maxResults sc')) rs
    \<and> (\<forall>k. length rs = nat (maxResults sc') + k \<longrightarrow> slice_elems h' (results sc') = drop k rs)"
proof -
  obtain h0 sc0 where st0: "st0 = (h0, sc0)" by (cases st0)
  note N = NewStatusChecker_props[OF assms(1)[unfolded st0]]
  have one: "1 \<le> maxResults sc0" by (simp add: N(3))
  have len: "int (length (slice_elems h0 (results sc0))) \<le> maxResults sc0"
    using one by (simp add: N(2))
  from appendAll_props[OF N(1) len one assms(2)[unfolded st0]]
  have m: "maxResults sc' = maxResults sc0"
    and el: "slice_elems h' (results sc') = lastn (nat (maxResults sc0)) rs"
    by (simp_all add: N(2))
  show ?thesis
    using one by (auto simp: m el st0 lastn_def)
qed

theorem history_bounded_fifo_witness:
  "\<exists>st0 h' sc'.
     NewStatusChecker (12 * Hour) [] ''debian'' = Inr st0
     \<and> foldl (\<lambda>st r. appendResult (\<lambda>c. 2 * c) r st) st0
          [zeroCheckResult\<lparr>Timestamp := 1\<rparr>, zeroCheckResult\<lparr>Timestamp := 2\<rparr>,
           zeroCheckResult\<lparr>Timestamp := 3\<rparr>] = (h', sc')
     \<and> maxResults sc' = 2
     \<and> slice_elems h' (results sc') =
          [zeroCheckResult\<lparr>Timestamp := 2\<rparr>, zeroCheckResult\<lparr>Timestamp := 3\<rparr>]"
proof -
  obtain st0 where a: "NewStatusChecker (12 * Hour) [] ''debian'' = Inr st0"
    and m: "maxResults (snd st0) = 2"
    by (simp add: run_eval)
  obtain h' sc' where b: "foldl (\<lambda>st r. appendResult (\<lambda>c. 2 * c) r st) st0
          [zeroCheckResult\<lparr>Timestamp := 1\<rparr>, zeroCheckResult\<lparr>Timestamp := 2\<rparr>,
           zeroCheckResult\<lparr>Timestamp := 3\<rparr>] = (h', sc')"
    by (cases "foldl (\<lambda>st r. appendResult (\<lambda>c. 2 * c) r st) st0
          [zeroCheckResult\<lparr>Timestamp := 1\<rparr>, zeroCheckResult\<lparr>Timestamp := 2\<rparr>,
           zeroCheckResult\<lparr>Timestamp := 3\<rparr>]")
  from history_bounded_fifo [OF a b] m
  have "maxResults sc' = 2" and "slice_elems h' (results sc') =
          [zeroCheckResult\<lparr>Timestamp := 2\<rparr>, zeroCheckResult\<lparr>Timestamp := 3\<rparr>]"
    by simp_all
  with a b show ?thesis by blast
qed

subsection \<open>Validation\<close>

text \<open>
  C2, as the code has it. \<open>isValidModulePath\<close> accepts exactly the non-empty strings made
  of ASCII letters, digits, \<open>-\<close>, \<open>_\<close> and \<open>.\<close> only. So it rejects every string with a
  \<open>/\<close>, every string with a space and the empty string; a string with \<open>..\<close> is rejected
  only when it has a character outside the allowed ones, and \<open>..\<close> itself is accepted.
\<close>

theorem isValidModulePath_allow_list:
  "(isValidModulePath s \<longleftrightarrow>
      s \<noteq> [] \<and> set s \<subseteq> set ''abcdefghijklmnopqrstuvwxyzABCDEFGHIJKLMNOPQRSTUVWXYZ0123456789-_.'')
   \<and> (CHR ''/'' \<in> set s \<longrightarrow> \<not> isValidModulePath s)
   \<and> (CHR '' '' \<in> set s \<longrightarrow> \<not> isValidModulePath s)
   \<and> \<not> isValidModulePath []
   \<and> isValidModulePath ''..''"
  by (auto simp: isValidModulePath_iff)

theorem isValidModulePath_allow_list_witness:
  "isValidModulePath ''ubuntu-22.04'' \<and> \<not> isValidModulePath ''invalid/path''
   \<and> \<not> isValidModulePath ''space in name'' \<and> \<not> isValidModulePath ''bad!char''"
  using isValidModulePath_allow_list [of "''ubuntu-22.04''"]
    isValidModulePath_allow_list [of "''invalid/path''"]
    isValidModulePath_allow_list [of "''space in name''"]
    isValidModulePath_allow_list [of "''bad!char''"]
  by simp

text \<open>
  C2 as stated asks that every string containing \<open>..\<close> be rejected, and that every
  non-empty string of allowed characters be accepted. The string \<open>..\<close> contains \<open>..\<close>
  and the function accepts it.
\<close>

theorem dotdot_counterexample:
  "Contains ''..'' ''..'' \<and> isValidModulePath ''..''"
  by (simp add: isValidModulePath_def module_class_def in_class_def)

subsection \<open>Classification of failures\<close>

text \<open>
  C3. When the command returned an error, the result's \<open>HTTPStatus\<close> is 404 if the combined
  output contains \<open>@ERROR: Unknown module\<close> somewhere, and 500 otherwise.
\<close>

theorem unknown_module_status:
  "HTTPStatus (performCheck_newResult now (Some e) out) =
     (if sublist ''@ERROR: Unknown module'' out then StatusNotFound else StatusInternalServerError)"
  by (cases e; simp add: performCheck_newResult_def Contains_sublist Let_def split: option.split)

theorem unknown_module_status_witness:
  "HTTPStatus (performCheck_newResult 7 (Some (ExitError (Some 5)))
       (''@ERROR: Unknown module '' @ [CHR 0x27] @ ''nonexistent'' @ [CHR 0x27, CHR 0x0A])) = 404
   \<and> HTTPStatus (performCheck_newResult 7 (Some (ExitError (Some 12)))
       (''@ERROR: chroot failed'' @ [CHR 0x0A])) = 500"
  using unknown_module_status [of 7 "ExitError (Some 5)"
      "''@ERROR: Unknown module '' @ [CHR 0x27] @ ''nonexistent'' @ [CHR 0x27, CHR 0x0A]"]
    unknown_module_status [of 7 "ExitError (Some 12)" "''@ERROR: chroot failed'' @ [CHR 0x0A]"]
  by (simp add: sublist_code)

subsection \<open>Classification of a success\<close>

text \<open>
  C4. When the command returned no error (it exited with status 0), the result is up, with
  the message \<open>Operational\<close>, the status 200, no error text, no output and exit code 0,
  whatever the command printed.
\<close>

theorem success_result:
  "performCheck_newResult now None out =
     \<lparr>IsUp = True, Message = ''Operational'', Error = [], HTTPStatus = StatusOK,
      RsyncExitCode = 0, RsyncOutput = [], Timestamp = now\<rparr>"
  by (simp add: performCheck_newResult_def zeroCheckResult_def)

theorem success_result_witness:
  "IsUp (performCheck_newResult 7 None ''debian'')
   \<and> HTTPStatus (performCheck_newResult 7 None ''debian'') = 200
   \<and> Error (performCheck_newResult 7 None ''debian'') = []"
  using success_result [of 7 "''debian''"] by simp

subsection \<open>The fields of a failure\<close>

text \<open>
  C5, as the code has it. When the command returned an error, the result is down; its
  \<open>Error\<close> is the first line of the combined output that is not empty once its leading and
  trailing white space is removed, with that white space removed, and it is
  \<open>Erro desconhecido do rsync\<close> when there is no such line; its \<open>RsyncOutput\<close> is the
  combined output without its leading and trailing white space; its \<open>RsyncExitCode\<close> is
  the exit status of the process when the error carries one.
\<close>

theorem failure_result:
  "Error (performCheck_newResult now (Some e) out) =
      (case find (\<lambda>l. TrimSpace l \<noteq> []) (Split_newline out) of
         None \<Rightarrow> ''Erro desconhecido do rsync''
       | Some l \<Rightarrow> TrimSpace l)
   \<and> RsyncOutput (performCheck_newResult now (Some e) out) = TrimSpace out
   \<and> RsyncExitCode (performCheck_newResult now (Some (ExitError (Some code))) out) = code
   \<and> \<not> IsUp (performCheck_newResult now (Some e) out)"
  by (cases e; simp add: performCheck_newResult_def firstLine_loop_find Let_def split: option.split)

theorem failure_result_witness:
  "Error (performCheck_newResult 7 (Some (ExitError (Some 12)))
       ([CHR 0x20, CHR 0x0A, CHR 0x09] @ ''@ERROR: chroot failed '' @ [CHR 0x0A] @ ''more''))
     = ''@ERROR: chroot failed''
   \<and> RsyncExitCode (performCheck_newResult 7 (Some (ExitError (Some 12)))
       ([CHR 0x20, CHR 0x0A, CHR 0x09] @ ''@ERROR: chroot failed '' @ [CHR 0x0A] @ ''more'')) = 12
   \<and> Error (performCheck_newResult 7 (Some OtherError) [CHR 0x20, CHR 0x0A])
     = ''Erro desconhecido do rsync''"
  using failure_result [of 7 "ExitError (Some 12)"
      "[CHR 0x20, CHR 0x0A, CHR 0x09] @ ''@ERROR: chroot failed '' @ [CHR 0x0A] @ ''more''" 12]
    failure_result [of 7 OtherError "[CHR 0x20, CHR 0x0A]"]
  by (simp add: trim_eval)

text \<open>
  C5 as stated names \<open>unknown probe error\<close> as the placeholder. On an empty output, which
  has no line to show, the error text is another one.
\<close>

theorem placeholder_counterexample:
  "Split_newline [] = [[]] \<and> TrimSpace [] = []
   \<and> Error (performCheck_newResult 0 (Some (ExitError (Some 1))) []) = ''Erro desconhecido do rsync''
   \<and> Error (performCheck_newResult 0 (Some (ExitError (Some 1))) []) \<noteq> ''unknown probe error''"
  by (simp add: performCheck_newResult_def trim_eval)

subsection \<open>The status of a response\<close>

text \<open>
  C6. A checker made by \<open>NewStatusChecker\<close> has lived through any ticks and requests.
  \<open>ServeHTTP\<close> then answers, on a new response, with the \<open>HTTPStatus\<close> of the last result
  of the history as the status of the response, and with 200 and no entry when the history
  is empty; the body has one entry for each result of the history, in order. The last
  result is either up with status 200, or down with status 404 or 500.
\<close>

theorem ServeHTTP_status_latest:
  assumes "NewStatusChecker pollingInterval h name = Inr st0"
    and "run growcap evs st0 = (h1, sc1)"
  shows "\<exists>w. snd (ServeHTTP h1 sc1 newResponse) = Inr w
    \<and> status w = Some (if slice_elems h1 (results sc1) = [] then StatusOK
                       else HTTPStatus (last (slice_elems h1 (results sc1))))
    \<and> body w = [JArray (map (resultEntry sc1) (slice_elems h1 (results sc1)))]
    \<and> (slice_elems h1 (results sc1) = [] \<longrightarrow> body w = [JArray []])
    \<and> (slice_elems h1 (results sc1) \<noteq> [] \<longrightarrow>
         (IsUp (last (slice_elems h1 (results sc1)))
            \<and> HTTPStatus (last (slice_elems h1 (results sc1))) = StatusOK)
         \<or> (\<not> IsUp (last (slice_elems h1 (results sc1)))
            \<and> (HTTPStatus (last (slice_elems h1 (results sc1))) = StatusNotFound
               \<or> HTTPStatus (last (slice_elems h1 (results sc1))) = StatusInternalServerError)))"
proof -
  obtain h0 sc0 where st0: "st0 = (h0, sc0)" by (cases st0)
  note R = reachable_props[OF assms(1)[unfolded st0] assms(2)[unfolded st0]]
  note ok = R(1) and el = R(2) and size = R(4)
  have sub: "set (slice_elems h1 (results sc1)) \<subseteq> set (outcomes evs)"
    unfolding el lastn_def by (rule set_drop_subset)
  have last: "(IsUp (last (slice_elems h1 (results sc1)))
            \<and> HTTPStatus (last (slice_elems h1 (results sc1))) = StatusOK)
         \<or> (\<not> IsUp (last (slice_elems h1 (results sc1)))
            \<and> (HTTPStatus (last (slice_elems h1 (results sc1))) = StatusNotFound
               \<or> HTTPStatus (last (slice_elems h1 (results sc1))) = StatusInternalServerError))"
    if "slice_elems h1 (results sc1) \<noteq> []"
  proof -
    from that have "last (slice_elems h1 (results sc1)) \<in> set (outcomes evs)"
      using sub last_in_set by blast
    then show ?thesis by (rule outcome_status)
  qed
  then have codes: "HTTPStatus (last (slice_elems h1 (results sc1)))
      \<in> {StatusOK, StatusNotFound, StatusInternalServerError}"
    if "slice_elems h1 (results sc1) \<noteq> []"
    using that by blast
  show ?thesis
    using last by (simp add: ServeHTTP_response[OF ok size codes])
qed

theorem ServeHTTP_status_latest_witness:
  "\<exists>st0 h1 sc1 w.
     NewStatusChecker (12 * Hour) [] ''debian'' = Inr st0
     \<and> run (\<lambda>c. 2 * c)
          [Tick 1 None [], Query, Tick 2 (Some (ExitError (Some 5))) ''@ERROR: Unknown module'']
          st0 = (h1, sc1)
     \<and> snd (ServeHTTP h1 sc1 newResponse) = Inr w
     \<and> map HTTPStatus (slice_elems h1 (results sc1)) = [200, 404]
     \<and> status w = Some 404"
proof -
  have "case NewStatusChecker (12 * Hour) [] ''debian'' of
          Inl p \<Rightarrow> False
        | Inr st0 \<Rightarrow>
            (case run (\<lambda>c. 2 * c)
               [Tick 1 None [], Query,
                Tick 2 (Some (ExitError (Some 5))) ''@ERROR: Unknown module''] st0 of
               (h1, sc1) \<Rightarrow> map HTTPStatus (slice_elems h1 (results sc1)) = [200, 404])"
    by code_simp
  then obtain st0 h1 sc1 where a: "NewStatusChecker (12 * Hour) [] ''debian'' = Inr st0"
    and b: "run (\<lambda>c. 2 * c)
          [Tick 1 None [], Query, Tick 2 (Some (ExitError (Some 5))) ''@ERROR: Unknown module'']
          st0 = (h1, sc1)"
    and c: "map HTTPStatus (slice_elems h1 (results sc1)) = [200, 404]"
    by (auto split: sum.splits prod.splits)
  from c have "slice_elems h1 (results sc1) \<noteq> []"
    and "HTTPStatus (last (slice_elems h1 (results sc1))) = 404"
    by (auto simp: map_eq_Cons_conv)
  with ServeHTTP_status_latest [OF a b] a b c show ?thesis by auto
qed

subsection \<open>Client errors\<close>

text \<open>
  C7. The handler of \<open>/status/\<close> takes the module name from the path. When the name is
  empty or not valid, the response is the JSON error with code 400, the same for every heap
  and every map of checkers, and the heap is returned as it was: neither the registry nor a
  history is read or changed. When the name is valid and the map has no checker for it,
  the response is the JSON error with code 404 and the message that the module is not
  monitored, and the heap is returned as it was.
\<close>

theorem statusHandler_client_errors:
  "(TrimPrefix urlPath ''/status/'' = [] \<or> \<not> isValidModulePath (TrimPrefix urlPath ''/status/'') \<longrightarrow>
      (\<exists>message. \<forall>h checkers.
         statusHandler h checkers newResponse urlPath =
           (h, Inr \<lparr>header = [''Content-Type'' \<mapsto> ''application/json''], informational = [],
                    status = Some StatusBadRequest,
                    body = [JObject [''path'' \<mapsto> JString urlPath, ''success'' \<mapsto> JBool False,
                              ''error'' \<mapsto> JString message, ''code'' \<mapsto> JInt StatusBadRequest]]\<rparr>)))
   \<and> (isValidModulePath (TrimPrefix urlPath ''/status/'')
        \<and> checkers (TrimPrefix urlPath ''/status/'') = None \<longrightarrow>
      statusHandler h checkers newResponse urlPath =
        (h, Inr \<lparr>header = [''Content-Type'' \<mapsto> ''application/json''], informational = [],
                 status = Some StatusNotFound,
                 body = [JObject [''path'' \<mapsto> JString urlPath, ''success'' \<mapsto> JBool False,
                           ''error'' \<mapsto> JString (notMonitoredMessage (TrimPrefix urlPath ''/status/'')),
                           ''code'' \<mapsto> JInt StatusNotFound]]\<rparr>))"
proof (intro conjI impI)
  assume bad: "TrimPrefix urlPath ''/status/'' = [] \<or> \<not> isValidModulePath (TrimPrefix urlPath ''/status/'')"
  show "\<exists>message. \<forall>h checkers.
         statusHandler h checkers newResponse urlPath =
           (h, Inr \<lparr>header = [''Content-Type'' \<mapsto> ''application/json''], informational = [],
                    status = Some StatusBadRequest,
                    body = [JObject [''path'' \<mapsto> JString urlPath, ''success'' \<mapsto> JBool False,
                              ''error'' \<mapsto> JString message, ''code'' \<mapsto> JInt StatusBadRequest]]\<rparr>)"
  proof (cases "TrimPrefix urlPath ''/status/'' = []")
    case True
    then show ?thesis
      by (intro exI[of _ emptyModuleMessage])
        (simp add: statusHandler_def writeJSONError_def WriteHeader_def Encode_def newResponse_def
          bodyAllowedForStatus_def)
  next
    case False
    with bad show ?thesis
      by (intro exI[of _ "invalidModuleMessage (TrimPrefix urlPath ''/status/'')"])
        (simp add: statusHandler_def writeJSONError_def WriteHeader_def Encode_def newResponse_def
          bodyAllowedForStatus_def)
  qed
next
  assume "isValidModulePath (TrimPrefix urlPath ''/status/'')
        \<and> checkers (TrimPrefix urlPath ''/status/'') = None"
  moreover have "\<not> isValidModulePath []" by (simp add: isValidModulePath_def)
  ultimately show "statusHandler h checkers newResponse urlPath =
        (h, Inr \<lparr>header = [''Content-Type'' \<mapsto> ''application/json''], informational = [],
                 status = Some StatusNotFound,
                 body = [JObject [''path'' \<mapsto> JString urlPath, ''success'' \<mapsto> JBool False,
                           ''error'' \<mapsto> JString (notMonitoredMessage (TrimPrefix urlPath ''/status/'')),
                           ''code'' \<mapsto> JInt StatusNotFound]]\<rparr>)"
    by (auto simp: statusHandler_def writeJSONError_def WriteHeader_def Encode_def newResponse_def
        bodyAllowedForStatus_def Let_def)
qed

theorem statusHandler_client_errors_witness:
  "(\<exists>w. snd (statusHandler [] Map.empty newResponse ''/status/bad!name'') = Inr w
        \<and> status w = Some 400)
   \<and> (\<exists>w. snd (statusHandler [] Map.empty newResponse ''/status/'') = Inr w \<and> status w = Some 400)
   \<and> (\<exists>w. snd (statusHandler [] Map.empty newResponse ''/status/nonexistent'') = Inr w
        \<and> status w = Some 404)"
proof -
  have a: "\<not> isValidModulePath (TrimPrefix ''/status/bad!name'' ''/status/'')"
    and b: "TrimPrefix ''/status/'' ''/status/'' = []"
    and c: "isValidModulePath (TrimPrefix ''/status/nonexistent'' ''/status/'')"
    by (simp_all add: TrimPrefix_def isValidModulePath_def module_class_def in_class_def)
  show ?thesis
    using a b c statusHandler_client_errors [of "''/status/bad!name''" Map.empty "[]"]
      statusHandler_client_errors [of "''/status/''" Map.empty "[]"]
      statusHandler_client_errors [of "''/status/nonexistent''" Map.empty "[]"]
    by auto
qed

subsection \<open>The capacity\<close>

text \<open>
  C8. For a positive polling interval \<open>NewStatusChecker\<close> either returns a checker or panics
  in \<open>make\<close>; it returns one for every interval of 30 nanoseconds or more, and panics, the
  array being above \<open>maxAlloc\<close>, for the shorter ones. Every checker it returns has the
  capacity \<open>maxResults\<close> equal to the greater of 1 and 24 hours divided by the interval; the
  division truncates, which for these operands is the exact integer quotient. The capacity
  is at least 1, it is 1 for an interval longer than 24 hours, and the new history is empty
  with room for \<open>maxResults\<close> results.
\<close>

theorem NewStatusChecker_capacity:
  assumes "0 < pollingInterval"
  shows "(30 \<le> pollingInterval \<longrightarrow>
            (\<exists>h' sc. NewStatusChecker pollingInterval h name = Inr (h', sc)))
    \<and> (pollingInterval < 30 \<longrightarrow>
            NewStatusChecker pollingInterval h name = Inl MakeSliceCapOutOfRange)
    \<and> (\<forall>h' sc. NewStatusChecker pollingInterval h name = Inr (h', sc) \<longrightarrow>
          maxResults sc = max 1 ((24 * Hour) sdiv pollingInterval)
          \<and> (24 * Hour) sdiv pollingInterval = (24 * Hour) div pollingInterval
          \<and> 1 \<le> maxResults sc
          \<and> cap (results sc) = nat (maxResults sc) \<and> len (results sc) = 0
          \<and> slice_elems h' (results sc) = []
          \<and> (24 * Hour < pollingInterval \<longrightarrow> maxResults sc = 1))"
proof -
  have day: "24 * Hour = 86400000000000" by (simp add: Hour_def)
  have sd: "(24 * Hour) sdiv pollingInterval = (24 * Hour) div pollingInterval"
    using assms by (simp add: day signed_divide_int_def)
  have small: "(24 * Hour) div pollingInterval = 0" if "24 * Hour < pollingInterval"
    using that by (simp add: day div_pos_pos_trivial)
  have long: "NewStatusChecker pollingInterval h name \<noteq> Inl p" if "30 \<le> pollingInterval" for p
  proof -
    have "(86400000000000::int) div pollingInterval \<le> 86400000000000 div 30"
      using that by (intro zdiv_mono2) simp_all
    then have "max 1 ((24 * Hour) div pollingInterval) \<le> 2880000000000"
      by (simp add: day)
    moreover have "int (nat (max 1 ((24 * Hour) div pollingInterval)))
        = max 1 ((24 * Hour) div pollingInterval)"
      by simp
    moreover have "(2::int) ^ 48 = 281474976710656"
      by simp
    ultimately have "sizeofCheckResult * int (nat (max 1 ((24 * Hour) div pollingInterval))) \<le> maxAlloc"
      unfolding sizeofCheckResult_def maxAlloc_def by linarith
    then show ?thesis
      using assms
      by (simp add: NewStatusChecker_def Let_def sd makeslice_succeeds max_def
          split: if_splits)
  qed
  have short: "NewStatusChecker pollingInterval h name = Inl MakeSliceCapOutOfRange"
    if "pollingInterval < 30"
  proof -
    have "(86400000000000::int) div 29 \<le> 86400000000000 div pollingInterval"
      using that assms by (intro zdiv_mono2) simp_all
    then have "2979310344827 \<le> (24 * Hour) div pollingInterval"
      by (simp add: day)
    then have "2979310344827 \<le> int (nat ((24 * Hour) div pollingInterval))"
      and "1 \<le> (24 * Hour) div pollingInterval"
      by simp_all
    then show ?thesis
      using assms
      by (simp add: NewStatusChecker_def Let_def sd makeslice_def sizeofCheckResult_def
          maxAlloc_def)
  qed
  have made: "maxResults sc = max 1 ((24 * Hour) sdiv pollingInterval)
      \<and> 1 \<le> maxResults sc \<and> cap (results sc) = nat (maxResults sc) \<and> len (results sc) = 0
      \<and> slice_elems h' (results sc) = []"
    if "NewStatusChecker pollingInterval h name = Inr (h', sc)" for h' sc
    using that
    by (auto simp: NewStatusChecker_def Let_def makeslice_def slice_elems_def
        split: if_splits)
  have exists: "\<exists>h' sc. NewStatusChecker pollingInterval h name = Inr (h', sc)"
    if "30 \<le> pollingInterval"
  proof (cases "NewStatusChecker pollingInterval h name")
    case (Inl p)
    with long[OF that, of p] show ?thesis by simp
  next
    case (Inr r)
    then show ?thesis by (cases r) simp
  qed
  show ?thesis
    using exists short made sd small by (auto simp: max_def)
qed

theorem NewStatusChecker_capacity_witness:
  "(\<exists>h' sc. NewStatusChecker (48 * Hour) [] ''debian'' = Inr (h', sc) \<and> maxResults sc = 1)
   \<and> (\<exists>h' sc. NewStatusChecker (300 * 1000000000) [] ''debian'' = Inr (h', sc)
         \<and> maxResults sc = 288)
   \<and> NewStatusChecker 1 [] ''debian'' = Inl MakeSliceCapOutOfRange"
proof -
  have a: "(0::int) < 48 * Hour" and b: "(0::int) < 300 * 1000000000" and c: "(0::int) < 1"
    by (simp_all add: Hour_def)
  show ?thesis
    using NewStatusChecker_capacity [OF a, of "[]" "''debian''"]
      NewStatusChecker_capacity [OF b, of "[]" "''debian''"]
      NewStatusChecker_capacity [OF c, of "[]" "''debian''"]
    by (auto simp: Hour_def signed_divide_int_def)
qed

subsection \<open>The snapshot\<close>

text \<open>
  C9. A checker made by \<open>NewStatusChecker\<close> has lived through any ticks and requests, and
  \<open>ServeHTTP\<close> takes its copy of the history (lines 185 to 188). The copy is made, in a
  backing array of its own: a new array of the heap, which is not the array of the history,
  while the arrays that were there stay as they were. The copy shows the results the
  history shows at that time, and the history shows them still. Whatever is written to the
  array of the history, the copy shows the same results; and whatever ticks and requests
  follow, with their appends, the history never comes to use the array of the copy, that
  array stays as it is, and the copy still shows the same results.
\<close>

theorem snapshot_independent:
  assumes "NewStatusChecker pollingInterval h name = Inr st0"
    and "run growcap evs st0 = (h1, sc1)"
  shows "\<exists>h2 snap. snapshot h1 sc1 = Inr (h2, snap)
    \<and> array snap = length h1 \<and> length h2 = Suc (length h1)
    \<and> array (results sc1) < length h1
    \<and> array snap \<noteq> array (results sc1)
    \<and> (\<forall>a. a < length h1 \<longrightarrow> heap_array h2 a = heap_array h1 a)
    \<and> slice_elems h2 snap = slice_elems h1 (results sc1)
    \<and> slice_elems h2 (results sc1) = slice_elems h1 (results sc1)
    \<and> (\<forall>arr. slice_elems (h2[array (results sc1) := arr]) snap = slice_elems h2 snap)
    \<and> (\<forall>later.
          array (results (snd (run growcap later (h2, sc1)))) \<noteq> array snap
          \<and> heap_array (fst (run growcap later (h2, sc1))) (array snap)
              = heap_array h2 (array snap)
          \<and> slice_elems (fst (run growcap later (h2, sc1))) snap = slice_elems h2 snap)"
proof -
  obtain h0 sc0 where st0: "st0 = (h0, sc0)" by (cases st0)
  note R = reachable_props[OF assms(1)[unfolded st0] assms(2)[unfolded st0]]
  note ok = R(1)
  obtain h2 snap where sn: "snapshot h1 sc1 = Inr (h2, snap)"
    using snapshot_succeeds[OF R(4)] by blast
  note S = snapshot_props[OF ok sn]
  have arr: "array (results sc1) < length h1" using ok by (simp add: slice_ok_def)
  have le: "length h1 \<le> length h2" using S(2) by simp
  note F = slice_ok_frame[OF ok le S(4)[OF arr]]
  have a1: "array snap < length h2" and a2: "array snap \<noteq> array (results sc1)"
    using S(2,3) arr by simp_all
  have old: "\<forall>a. a < length h1 \<longrightarrow> heap_array h2 a = heap_array h1 a"
    using S(4) by simp
  have wr: "slice_elems (h2[array (results sc1) := arr]) snap = slice_elems h2 snap" for arr
    using a1 a2 by (simp add: slice_elems_def heap_array_def)
  have later: "array (results (snd (run growcap later (h2, sc1)))) \<noteq> array snap
      \<and> heap_array (fst (run growcap later (h2, sc1))) (array snap) = heap_array h2 (array snap)
      \<and> slice_elems (fst (run growcap later (h2, sc1))) snap = slice_elems h2 snap" for later
  proof -
    obtain h3 sc3 where r: "run growcap later (h2, sc1) = (h3, sc3)"
      by (cases "run growcap later (h2, sc1)")
    from run_frame[OF F(1) r a1 a2] slice_ok_frame(2)[OF S(5), of h3]
    show ?thesis by (auto simp: r)
  qed
  show ?thesis
    using sn S(1,2,3) arr a2 old F(2) wr later by blast
qed

theorem snapshot_independent_witness:
  "\<exists>st0 h1 sc1 h2 snap.
     NewStatusChecker (12 * Hour) [] ''debian'' = Inr st0
     \<and> run (\<lambda>c. 2 * c) [Tick 1 None [], Tick 2 None []] st0 = (h1, sc1)
     \<and> snapshot h1 sc1 = Inr (h2, snap)
     \<and> array (results sc1) = 0 \<and> array snap = 1
     \<and> map Timestamp (slice_elems h2 snap) = [1, 2]
     \<and> map Timestamp
          (slice_elems (fst (run (\<lambda>c. 2 * c) [Tick 3 None [], Query, Tick 4 None []] (h2, sc1)))
             (results (snd (run (\<lambda>c. 2 * c) [Tick 3 None [], Query, Tick 4 None []] (h2, sc1)))))
         = [3, 4]
     \<and> map Timestamp
          (slice_elems (fst (run (\<lambda>c. 2 * c) [Tick 3 None [], Query, Tick 4 None []] (h2, sc1)))
             snap) = [1, 2]"
proof -
  have "case NewStatusChecker (12 * Hour) [] ''debian'' of
          Inl p \<Rightarrow> False
        | Inr st0 \<Rightarrow>
            (case run (\<lambda>c. 2 * c) [Tick 1 None [], Tick 2 None []] st0 of
               (h1, sc1) \<Rightarrow>
                 map Timestamp (slice_elems h1 (results sc1)) = [1, 2]
                 \<and> array (results sc1) = 0 \<and> length h1 = 1
                 \<and> (case snapshot h1 sc1 of
                      Inl p \<Rightarrow> False
                    | Inr (h2, snap) \<Rightarrow>
                        map Timestamp
                          (slice_elems
                             (fst (run (\<lambda>c. 2 * c) [Tick 3 None [], Query, Tick 4 None []] (h2, sc1)))
                             (results
                                (snd (run (\<lambda>c. 2 * c) [Tick 3 None [], Query, Tick 4 None []]
                                   (h2, sc1))))) = [3, 4]))"
    by code_simp
  then obtain st0 where a: "NewStatusChecker (12 * Hour) [] ''debian'' = Inr st0"
    and f1: "case run (\<lambda>c. 2 * c) [Tick 1 None [], Tick 2 None []] st0 of
               (h1, sc1) \<Rightarrow>
                 map Timestamp (slice_elems h1 (results sc1)) = [1, 2]
                 \<and> array (results sc1) = 0 \<and> length h1 = 1
                 \<and> (case snapshot h1 sc1 of
                      Inl p \<Rightarrow> False
                    | Inr (h2, snap) \<Rightarrow>
                        map Timestamp
                          (slice_elems
                             (fst (run (\<lambda>c. 2 * c) [Tick 3 None [], Query, Tick 4 None []] (h2, sc1)))
                             (results
                                (snd (run (\<lambda>c. 2 * c) [Tick 3 None [], Query, Tick 4 None []]
                                   (h2, sc1))))) = [3, 4])"
    by (cases "NewStatusChecker (12 * Hour) [] ''debian''") simp_all
  obtain h1 sc1 where b: "run (\<lambda>c. 2 * c) [Tick 1 None [], Tick 2 None []] st0 = (h1, sc1)"
    by (cases "run (\<lambda>c. 2 * c) [Tick 1 None [], Tick 2 None []] st0")
  from f1 have c: "map Timestamp (slice_elems h1 (results sc1)) = [1, 2]"
    and e: "array (results sc1) = 0" "length h1 = 1"
    and f2: "case snapshot h1 sc1 of
               Inl p \<Rightarrow> False
             | Inr (h2, snap) \<Rightarrow>
                 map Timestamp
                   (slice_elems
                      (fst (run (\<lambda>c. 2 * c) [Tick 3 None [], Query, Tick 4 None []] (h2, sc1)))
                      (results
                         (snd (run (\<lambda>c. 2 * c) [Tick 3 None [], Query, Tick 4 None []]
                            (h2, sc1))))) = [3, 4]"
    by (simp_all add: b)
  from f2 obtain h2 snap where s: "snapshot h1 sc1 = Inr (h2, snap)"
    and d: "map Timestamp
          (slice_elems (fst (run (\<lambda>c. 2 * c) [Tick 3 None [], Query, Tick 4 None []] (h2, sc1)))
             (results (snd (run (\<lambda>c. 2 * c) [Tick 3 None [], Query, Tick 4 None []] (h2, sc1)))))
         = [3, 4]"
    by (cases "snapshot h1 sc1") auto
  from snapshot_independent [OF a b] c d e s a b show ?thesis
    by (intro exI[of _ st0] exI[of _ h1] exI[of _ sc1] exI[of _ h2] exI[of _ snap]) auto
qed

subsection \<open>Determinism\<close>

text \<open>
  C10. Two runs of the classification on the same error and the same combined output, at
  any two times, give results that agree on every field but \<open>Timestamp\<close>: with the
  timestamps set to one value the results are equal.
\<close>

theorem classification_deterministic:
  "(performCheck_newResult ta err out)\<lparr>Timestamp := t\<rparr>
     = (performCheck_newResult tb err out)\<lparr>Timestamp := t\<rparr>"
  by (cases err; simp add: performCheck_newResult_def Let_def split: option.split exec_error.split)

theorem classification_deterministic_witness:
  "(performCheck_newResult 1 (Some (ExitError (Some 5))) ''@ERROR: Unknown module'')\<lparr>Timestamp := 0\<rparr>
     = (performCheck_newResult 2 (Some (ExitError (Some 5))) ''@ERROR: Unknown module'')\<lparr>Timestamp := 0\<rparr>"
  using classification_deterministic [where ta = 1 and tb = 2 and t = 0
      and err = "Some (ExitError (Some 5))" and out = "''@ERROR: Unknown module''"]
  by simp

end
